theory Spec2Isabelle
  imports Main
begin

section \<open>Data model of torba/basenetwork.py\<close>

text \<open>
  Python values that travel as positional arguments of a request: transaction hex,
  addresses and hashes are strings, heights and counts are integers, and
  \<open>subscribe_headers\<close> passes the literal \<open>True\<close>. The arguments of a pushed request
  form a sequence, which a stream controller receives as one value.
\<close>

datatype pyval = PStr string | PInt int | PBool bool | PList "pyval list"

text \<open>
  The exceptions the modelled code can raise: the \<open>ConnectionError\<close> of \<open>rpc\<close>, the
  \<open>KeyError\<close> of a dictionary lookup and the \<open>AttributeError\<close> of an attribute read on
  \<open>None\<close>.
\<close>

datatype error = ConnectionError | KeyError | AttributeError

type_synonym server = "string \<times> int"

type_synonym request = "string \<times> pyval list"

subsection \<open>Stream controllers\<close>

text \<open>
  Modelled from the spec: \<open>torba.stream.StreamController\<close> is imported by
  basenetwork.py but its source is not among the files. The spec describes a
  per-topic broadcast stream to which several independent consumers may attach;
  an event is delivered to every attached consumer in arrival order, and a consumer
  attached later does not see earlier events. \<open>listeners\<close> holds, per attached
  consumer, the events it has received; \<open>published\<close> is the history of all events
  handed to \<open>add\<close>.
\<close>

record stream_controller =
  listeners :: "pyval list list"
  published :: "pyval list"

definition new_controller :: stream_controller where
  "new_controller = \<lparr>listeners = [], published = []\<rparr>"

definition add :: "pyval \<Rightarrow> stream_controller \<Rightarrow> stream_controller" where
  "add ev c = c\<lparr>listeners := map (\<lambda>q. q @ [ev]) (listeners c),
                published := published c @ [ev]\<rparr>"

definition listen :: "stream_controller \<Rightarrow> stream_controller" where
  "listen c = c\<lparr>listeners := listeners c @ [[]]\<rparr>"

subsection \<open>Sessions\<close>

text \<open>
  \<open>ClientSession\<close> extends the session class of the aiorpcx library. The library part
  is represented by what basenetwork.py observes of it: the transport (absent until
  \<open>create_connection\<close> succeeds, then open, then closing), on which \<open>is_closing\<close>
  depends, the requests handed to \<open>send_request\<close>, and the exceptions that left
  \<open>handle_request\<close> and so reached the library's request dispatcher, which called it.
\<close>

datatype transport = NoTransport | TransportOpen | TransportClosing

record client_session =
  host :: string
  port :: int
  transport :: transport
  sent :: "request list"
  handler_errors :: "error list"
  on_disconnect_controller :: stream_controller

text \<open>\<open>ClientSession.__init__\<close>, called as \<open>ClientSession(*server, network=self)\<close>.\<close>

definition new_session :: "server \<Rightarrow> client_session" where
  "new_session srv =
     \<lparr>host = fst srv, port = snd srv, transport = NoTransport, sent = [],
      handler_errors = [], on_disconnect_controller = new_controller\<rparr>"

definition is_closing :: "client_session \<Rightarrow> bool" where
  "is_closing s = (transport s \<noteq> TransportOpen)"

definition send_request :: "request \<Rightarrow> client_session \<Rightarrow> client_session" where
  "send_request req s = s\<lparr>sent := sent s @ [req]\<rparr>"

text \<open>\<open>ClientSession.connection_lost\<close>: the library closes the transport, then the
  disconnect controller receives \<open>True\<close>.\<close>

definition connection_lost :: "client_session \<Rightarrow> client_session" where
  "connection_lost s =
     s\<lparr>transport := TransportClosing,
       on_disconnect_controller := add (PBool True) (on_disconnect_controller s)\<rparr>"

definition disconnect_fired :: "client_session \<Rightarrow> bool" where
  "disconnect_fired s = (published (on_disconnect_controller s) \<noteq> [])"

subsection \<open>The network object\<close>

text \<open>
  The values of the dictionary \<open>subscription_controllers\<close> are the controller objects
  already held in \<open>_on_header_controller\<close> and \<open>_on_status_controller\<close>; a
  \<open>controller_ref\<close> names which of the two objects an entry aliases.
\<close>

datatype controller_ref = HeaderController | StatusController

text \<open>
  The coroutine \<open>start\<close> is suspended at one of its three \<open>await\<close>s, has not been called,
  or has returned. The number is the count of servers already drawn from
  \<open>cycle(default_servers)\<close> before the current one.
\<close>

datatype task = NotStarted | Connecting nat | AwaitingVersion nat | AwaitingDisconnect nat
  | Returned

text \<open>
  \<open>client\<close> is a reference: \<open>None\<close> or the index of a session object in \<open>heap\<close>, which
  holds every session ever constructed. Python's leading underscores are dropped from
  the controller fields.
\<close>

record network =
  default_servers :: "server list"
  client :: "nat option"
  running :: bool
  on_connected_controller :: stream_controller
  on_header_controller :: stream_controller
  on_status_controller :: stream_controller
  subscription_controllers :: "(string \<times> controller_ref) list"
  heap :: "client_session list"
  task :: task

text \<open>\<open>BaseNetwork.__init__\<close>.\<close>

definition new_network :: "server list \<Rightarrow> network" where
  "new_network servers =
     \<lparr>default_servers = servers, client = None, running = False,
      on_connected_controller = new_controller,
      on_header_controller = new_controller,
      on_status_controller = new_controller,
      subscription_controllers =
        [(''blockchain.headers.subscribe'', HeaderController),
         (''blockchain.address.subscribe'', StatusController)],
      heap = [], task = NotStarted\<rparr>"

text \<open>\<open>BaseNetwork.is_connected\<close>. A Python reference always points to an object; the
  bound on the index keeps the property false for an index outside the heap.\<close>

definition is_connected :: "network \<Rightarrow> bool" where
  "is_connected st =
     (case client st of
        None \<Rightarrow> False
      | Some i \<Rightarrow> i < length (heap st) \<and> \<not> is_closing (heap st ! i))"

section \<open>The request facade\<close>

definition forward :: "nat \<Rightarrow> request \<Rightarrow> network \<Rightarrow> network" where
  "forward i req st = st\<lparr>heap := (heap st)[i := send_request req (heap st ! i)]\<rparr>"

text \<open>
  \<open>BaseNetwork.rpc\<close>. The result is the raised error or the pending request together
  with the index of the session it was handed to; the second component is the
  network after the call.
\<close>

definition rpc :: "string \<Rightarrow> pyval list \<Rightarrow> network \<Rightarrow> (error + nat \<times> request) \<times> network" where
  "rpc list_or_method args st =
     (if is_connected st then
        (case client st of
           Some i \<Rightarrow> (Inr (i, (list_or_method, args)), forward i (list_or_method, args) st)
         | None \<Rightarrow> (Inl AttributeError, st))
      else (Inl ConnectionError, st))"

text \<open>\<open>version\<close> stands for \<open>torba.__version__\<close>, whose value is defined outside
  basenetwork.py. An absent \<open>required\<close> takes the default of the signature.\<close>

definition ensure_server_version ::
  "string \<Rightarrow> pyval option \<Rightarrow> network \<Rightarrow> (error + nat \<times> request) \<times> network" where
  "ensure_server_version version required st =
     rpc ''server.version''
       [PStr version, (case required of None \<Rightarrow> PStr ''1.2'' | Some r \<Rightarrow> r)] st"

definition broadcast :: "pyval \<Rightarrow> network \<Rightarrow> (error + nat \<times> request) \<times> network" where
  "broadcast raw_transaction st = rpc ''blockchain.transaction.broadcast'' [raw_transaction] st"

definition get_history :: "pyval \<Rightarrow> network \<Rightarrow> (error + nat \<times> request) \<times> network" where
  "get_history address st = rpc ''blockchain.address.get_history'' [address] st"

definition get_transaction :: "pyval \<Rightarrow> network \<Rightarrow> (error + nat \<times> request) \<times> network" where
  "get_transaction tx_hash st = rpc ''blockchain.transaction.get'' [tx_hash] st"

definition get_merkle :: "pyval \<Rightarrow> pyval \<Rightarrow> network \<Rightarrow> (error + nat \<times> request) \<times> network" where
  "get_merkle tx_hash height st = rpc ''blockchain.transaction.get_merkle'' [tx_hash, height] st"

definition get_headers ::
  "pyval \<Rightarrow> pyval option \<Rightarrow> network \<Rightarrow> (error + nat \<times> request) \<times> network" where
  "get_headers height count st =
     rpc ''blockchain.block.headers''
       [height, (case count of None \<Rightarrow> PInt 10000 | Some c \<Rightarrow> c)] st"

definition subscribe_headers :: "network \<Rightarrow> (error + nat \<times> request) \<times> network" where
  "subscribe_headers st = rpc ''blockchain.headers.subscribe'' [PBool True] st"

definition subscribe_address :: "pyval \<Rightarrow> network \<Rightarrow> (error + nat \<times> request) \<times> network" where
  "subscribe_address address st = rpc ''blockchain.address.subscribe'' [address] st"

text \<open>One value per public facade method with its arguments, and the call it stands for.\<close>

datatype facade_call =
    Broadcast pyval
  | GetHistory pyval
  | GetTransaction pyval
  | GetMerkle pyval pyval
  | GetHeaders pyval "pyval option"
  | SubscribeHeaders
  | SubscribeAddress pyval

fun call :: "facade_call \<Rightarrow> network \<Rightarrow> (error + nat \<times> request) \<times> network" where
  "call (Broadcast raw_transaction) st = broadcast raw_transaction st"
| "call (GetHistory address) st = get_history address st"
| "call (GetTransaction tx_hash) st = get_transaction tx_hash st"
| "call (GetMerkle tx_hash height) st = get_merkle tx_hash height st"
| "call (GetHeaders height count) st = get_headers height count st"
| "call SubscribeHeaders st = subscribe_headers st"
| "call (SubscribeAddress address) st = subscribe_address address st"

section \<open>Push dispatch\<close>

text \<open>\<open>ClientSession.handle_request\<close>: the subscript on the dictionary raises \<open>KeyError\<close>
  for a missing key, before anything is added to a controller.\<close>

definition handle_request :: "string \<Rightarrow> pyval list \<Rightarrow> network \<Rightarrow> (error + unit) \<times> network" where
  "handle_request method args st =
     (case map_of (subscription_controllers st) method of
        None \<Rightarrow> (Inl KeyError, st)
      | Some HeaderController \<Rightarrow>
          (Inr (), st\<lparr>on_header_controller := add (PList args) (on_header_controller st)\<rparr>)
      | Some StatusController \<Rightarrow>
          (Inr (), st\<lparr>on_status_controller := add (PList args) (on_status_controller st)\<rparr>))"

section \<open>Connection lifecycle\<close>

text \<open>
  \<open>BaseNetwork.stop\<close>. \<open>close\<close> and the wait on \<open>disconnected\<close> that follows it end
  once the library has closed the transport and called \<open>connection_lost\<close> on the
  session, so that is the session's state when \<open>stop\<close> returns.
\<close>

definition stop :: "network \<Rightarrow> (error + unit) \<times> network" where
  "stop st =
     (let st1 = st\<lparr>running := False\<rparr> in
      if is_connected st1 then
        (case client st1 of
           Some i \<Rightarrow> (Inr (), st1\<lparr>heap := (heap st1)[i := connection_lost (heap st1 ! i)]\<rparr>)
         | None \<Rightarrow> (Inl AttributeError, st1))
      else (Inr (), st1))"

text \<open>
  The head of the loop body, up to the first \<open>await\<close>: the server is the \<open>k\<close>-th element
  of \<open>cycle(default_servers)\<close>, a new session is constructed for it and stored in
  \<open>client\<close>, and \<open>create_connection\<close> is awaited.
\<close>

definition begin_attempt :: "nat \<Rightarrow> network \<Rightarrow> network" where
  "begin_attempt k st =
     st\<lparr>heap := heap st @ [new_session (default_servers st ! (k mod length (default_servers st)))],
        client := Some (length (heap st)),
        task := Connecting k\<rparr>"

text \<open>The \<open>for\<close> statement asks \<open>cycle\<close> for its next element; over an empty sequence
  \<open>cycle\<close> is exhausted at once, the loop ends and \<open>start\<close> returns.\<close>

definition next_server :: "nat \<Rightarrow> network \<Rightarrow> network" where
  "next_server k st =
     (case default_servers st of
        [] \<Rightarrow> st\<lparr>task := Returned\<rparr>
      | _ # _ \<Rightarrow> begin_attempt k st)"

text \<open>The end of the loop body, reached after the \<open>try\<close> statement whether or not the
  handler ran: \<open>if not self.running: return\<close>, otherwise the next iteration.\<close>

definition after_attempt :: "nat \<Rightarrow> network \<Rightarrow> network" where
  "after_attempt k st =
     (if \<not> running st then st\<lparr>task := Returned\<rparr> else next_server (Suc k) st)"

text \<open>\<open>BaseNetwork.start\<close> up to its first \<open>await\<close>.\<close>

definition start :: "network \<Rightarrow> network" where
  "start st = next_server 0 (st\<lparr>running := True\<rparr>)"

text \<open>The library reports that the transport of the client session is connected.\<close>

definition open_transport :: "nat \<Rightarrow> network \<Rightarrow> network" where
  "open_transport i st = st\<lparr>heap := (heap st)[i := (heap st ! i)\<lparr>transport := TransportOpen\<rparr>]\<rparr>"

text \<open>The library calls \<open>connection_lost\<close> on a session, referenced by \<open>client\<close> or
  not, when its open transport drops.\<close>

definition lose :: "nat \<Rightarrow> network \<Rightarrow> network" where
  "lose i st =
     (if i < length (heap st) \<and> transport (heap st ! i) = TransportOpen
      then st\<lparr>heap := (heap st)[i := connection_lost (heap st ! i)]\<rparr>
      else st)"

definition lose_client :: "network \<Rightarrow> network" where
  "lose_client st = (case client st of None \<Rightarrow> st | Some i \<Rightarrow> lose i st)"

text \<open>
  The connection of the client session drops (or \<open>stop\<close> has closed it and the
  notification is delivered): \<open>start\<close>, when it waits at
  \<open>await self.client.on_disconnected.first\<close>, goes on to the end of the loop body. A
  request pending on the lost session fails afterwards, as \<open>VersionRejected\<close>.
\<close>

definition client_lost :: "network \<Rightarrow> network" where
  "client_lost st =
     (case task st of
        AwaitingDisconnect k \<Rightarrow> after_attempt k (lose_client st)
      | _ \<Rightarrow> lose_client st)"

text \<open>
  The library hands a pushed request to \<open>handle_request\<close> of the session \<open>i\<close> it
  arrived on. An exception that \<open>handle_request\<close> raises is not handled anywhere in
  basenetwork.py: it reaches the library's dispatcher for that session. What the
  library does with it (it may close the session, an event of its own below) is not
  part of this source.
\<close>

definition push :: "nat \<Rightarrow> string \<Rightarrow> pyval list \<Rightarrow> network \<Rightarrow> network" where
  "push i method args st =
     (if i < length (heap st) \<and> transport (heap st ! i) = TransportOpen then
        (case handle_request method args st of
           (Inl e, st') \<Rightarrow>
             st'\<lparr>heap := (heap st')[i := (heap st' ! i)
                      \<lparr>handler_errors := handler_errors (heap st' ! i) @ [e]\<rparr>]\<rparr>
         | (Inr u, st') \<Rightarrow> st')
      else st)"

text \<open>
  What can happen to a network object: its public methods are called, the awaited
  library operations of \<open>start\<close> complete or raise, the connection of the client
  session or of any other session drops, a server pushes a request on an open session,
  and a consumer attaches to the header or the status stream.
\<close>

datatype event =
    StartCalled
  | StopCalled
  | ConnectSucceeded
  | ConnectFailed
  | VersionAccepted
  | VersionRejected
  | ConnectionLost
  | SessionLost nat
  | Call facade_call
  | Push nat string "pyval list"
  | Listen controller_ref

text \<open>
  One step of the network under an event. The steps follow one run of \<open>start\<close> at
  a time: \<open>start\<close> is taken to be called when no earlier call is still running, and a
  call made while one runs, which in the program begins a second loop beside the
  first, is outside what is described here and leaves the state as it is, as does a
  reply with no request pending. Every exception raised inside the \<open>try\<close> statement
  is an \<open>Exception\<close>, is logged by the handler, and control continues at
  \<open>after_attempt\<close>.
\<close>

fun step :: "string \<Rightarrow> event \<Rightarrow> network \<Rightarrow> network" where
  "step version StartCalled st =
     (case task st of NotStarted \<Rightarrow> start st | Returned \<Rightarrow> start st | _ \<Rightarrow> st)"
| "step version StopCalled st = snd (stop st)"
| "step version ConnectSucceeded st =
     (case task st of
        Connecting k \<Rightarrow>
          (case client st of
             None \<Rightarrow> after_attempt k st
           | Some i \<Rightarrow>
               (case ensure_server_version version None (open_transport i st) of
                  (Inl e, st') \<Rightarrow> after_attempt k st'
                | (Inr r, st') \<Rightarrow> st'\<lparr>task := AwaitingVersion k\<rparr>))
      | _ \<Rightarrow> st)"
| "step version ConnectFailed st =
     (case task st of Connecting k \<Rightarrow> after_attempt k st | _ \<Rightarrow> st)"
| "step version VersionAccepted st =
     (case task st of
        AwaitingVersion k \<Rightarrow>
          if is_connected st
          then st\<lparr>on_connected_controller := add (PBool True) (on_connected_controller st),
                  task := AwaitingDisconnect k\<rparr>
          else st
      | _ \<Rightarrow> st)"
| "step version VersionRejected st =
     (case task st of AwaitingVersion k \<Rightarrow> after_attempt k st | _ \<Rightarrow> st)"
| "step version ConnectionLost st = client_lost st"
| "step version (SessionLost i) st =
     (if client st = Some i then client_lost st else lose i st)"
| "step version (Call c) st = snd (call c st)"
| "step version (Push i method args) st = push i method args st"
| "step version (Listen HeaderController) st =
     st\<lparr>on_header_controller := listen (on_header_controller st)\<rparr>"
| "step version (Listen StatusController) st =
     st\<lparr>on_status_controller := listen (on_status_controller st)\<rparr>"

fun run :: "string \<Rightarrow> event list \<Rightarrow> network \<Rightarrow> network" where
  "run version [] st = st"
| "run version (ev # evs) st = run version evs (step version ev st)"

text \<open>The three ways a connection attempt ends, and the events each consists of.\<close>

datatype outcome = ConnectRaises | VersionCheckRaises | Disconnects

fun events_of :: "outcome \<Rightarrow> event list" where
  "events_of ConnectRaises = [ConnectFailed]"
| "events_of VersionCheckRaises = [ConnectSucceeded, VersionRejected]"
| "events_of Disconnects = [ConnectSucceeded, VersionAccepted, ConnectionLost]"

text \<open>The servers for which a session has been constructed, oldest first.\<close>

definition attempted :: "network \<Rightarrow> server list" where
  "attempted st = map (\<lambda>s. (host s, port s)) (heap st)"

text \<open>The sessions that hold a live connection, referenced by \<open>client\<close> or not.\<close>

definition open_sessions :: "network \<Rightarrow> nat list" where
  "open_sessions st =
     filter (\<lambda>i. transport (heap st ! i) = TransportOpen) [0..<length (heap st)]"

text \<open>Facts that hold of every network reached from a new one; used in the proofs
  below. \<open>refs_ok\<close>: \<open>client\<close> points into the heap, a session whose disconnect
  notification has fired has a closing transport, and the dictionary is the one built
  by the constructor. \<open>task_ok\<close>: what the position of \<open>start\<close> implies.\<close>

definition refs_ok :: "network \<Rightarrow> bool" where
  "refs_ok st \<longleftrightarrow>
     (\<forall>i. client st = Some i \<longrightarrow> i < length (heap st)) \<and>
     list_all (\<lambda>s. disconnect_fired s \<longrightarrow> transport s = TransportClosing) (heap st) \<and>
     subscription_controllers st = subscription_controllers (new_network [])"

definition task_ok :: "network \<Rightarrow> bool" where
  "task_ok st \<longleftrightarrow>
     (task st = Returned \<and> default_servers st \<noteq> [] \<longrightarrow> \<not> running st) \<and>
     (\<forall>k. task st = Connecting k \<longrightarrow> transport (last (heap st)) = NoTransport) \<and>
     (task st \<noteq> NotStarted \<and> task st \<noteq> Returned \<longrightarrow>
        default_servers st \<noteq> [] \<and> heap st \<noteq> [] \<and> client st = Some (length (heap st) - 1))"

definition inv :: "network \<Rightarrow> bool" where
  "inv st \<longleftrightarrow> refs_ok st \<and> task_ok st"

section \<open>Facts about reachable networks\<close>

lemmas facade_defs = broadcast_def get_history_def get_transaction_def get_merkle_def
  get_headers_def subscribe_headers_def subscribe_address_def

lemma inv_new: "inv (new_network servers)"
  by (simp add: inv_def refs_ok_def task_ok_def new_network_def)

lemma new_session_not_fired: "\<not> disconnect_fired (new_session srv)"
  by (simp add: disconnect_fired_def new_session_def new_controller_def)

lemma refs_ok_begin_attempt: "refs_ok st \<Longrightarrow> refs_ok (begin_attempt k st)"
  by (simp add: refs_ok_def begin_attempt_def new_session_not_fired)

lemma task_ok_begin_attempt: "default_servers st \<noteq> [] \<Longrightarrow> task_ok (begin_attempt k st)"
  by (simp add: task_ok_def begin_attempt_def new_session_def)

lemma task_ok_Returned: "\<not> running st \<Longrightarrow> task_ok (st\<lparr>task := Returned\<rparr>)"
  by (simp add: task_ok_def)

lemma task_ok_Returned_empty: "default_servers st = [] \<Longrightarrow> task_ok (st\<lparr>task := Returned\<rparr>)"
  by (simp add: task_ok_def)

lemma refs_ok_task [simp]: "refs_ok (st\<lparr>task := t\<rparr>) = refs_ok st"
  by (simp add: refs_ok_def)

lemma refs_ok_running [simp]: "refs_ok (st\<lparr>running := b\<rparr>) = refs_ok st"
  by (simp add: refs_ok_def)

lemma inv_next_server: "refs_ok st \<Longrightarrow> inv (next_server k st)"
  by (cases "default_servers st")
     (simp_all add: inv_def next_server_def refs_ok_begin_attempt task_ok_begin_attempt
        task_ok_Returned_empty)

lemma inv_after_attempt: "refs_ok st \<Longrightarrow> inv (after_attempt k st)"
  using inv_next_server [of st "Suc k"]
  by (simp add: after_attempt_def inv_def task_ok_Returned)

lemma inv_start: "refs_ok st \<Longrightarrow> inv (start st)"
  by (simp add: start_def inv_next_server)

lemma connection_lost_closing: "transport (connection_lost s) = TransportClosing"
  by (simp add: connection_lost_def)

lemma list_all_update:
  "list_all P xs \<Longrightarrow> P x \<Longrightarrow> list_all P (xs[i := x])"
  by (induction xs arbitrary: i) (auto split: nat.splits)

lemma refs_ok_heap_update:
  "refs_ok st \<Longrightarrow> disconnect_fired s \<longrightarrow> transport s = TransportClosing \<Longrightarrow>
   refs_ok (st\<lparr>heap := (heap st)[i := s]\<rparr>)"
  by (auto simp: refs_ok_def list_all_update split: option.splits)

lemma refs_ok_lose: "refs_ok st \<Longrightarrow> refs_ok (lose i st)"
  by (auto simp: lose_def refs_ok_heap_update connection_lost_closing)

lemma refs_ok_lose_client: "refs_ok st \<Longrightarrow> refs_ok (lose_client st)"
  by (simp add: lose_client_def refs_ok_lose split: option.splits)

lemma refs_ok_stop: "refs_ok st \<Longrightarrow> refs_ok (snd (stop st))"
proof -
  assume ok: "refs_ok st"
  let ?st1 = "st\<lparr>running := False\<rparr>"
  have ok1: "refs_ok ?st1" using ok by simp
  have "refs_ok (?st1\<lparr>heap := (heap ?st1)[i := connection_lost (heap ?st1 ! i)]\<rparr>)" for i
    by (rule refs_ok_heap_update [OF ok1]) (simp add: connection_lost_closing)
  then show ?thesis
    using ok1 by (simp add: stop_def Let_def split: option.splits)
qed

lemma refs_ok_nth:
  "refs_ok st \<Longrightarrow> i < length (heap st) \<Longrightarrow> disconnect_fired (heap st ! i) \<Longrightarrow>
   transport (heap st ! i) = TransportClosing"
  by (simp add: refs_ok_def list_all_length)

lemma refs_ok_forward:
  "refs_ok st \<Longrightarrow> is_connected st \<Longrightarrow> client st = Some i \<Longrightarrow> refs_ok (forward i req st)"
  unfolding forward_def
  by (rule refs_ok_heap_update)
     (auto simp: is_connected_def is_closing_def send_request_def disconnect_fired_def
        dest: refs_ok_nth)

lemma refs_ok_rpc: "refs_ok st \<Longrightarrow> refs_ok (snd (rpc m args st))"
  by (auto simp: rpc_def refs_ok_forward split: option.splits)

lemma refs_ok_call: "refs_ok st \<Longrightarrow> refs_ok (snd (call c st))"
  by (cases c) (simp_all add: facade_defs refs_ok_rpc)

lemma refs_ok_handle_request: "refs_ok st \<Longrightarrow> refs_ok (snd (handle_request m args st))"
  by (auto simp: handle_request_def refs_ok_def split: option.splits controller_ref.splits)


lemma refs_ok_listen_header:
  "refs_ok st \<Longrightarrow> refs_ok (st\<lparr>on_header_controller := c\<rparr>)"
  by (simp add: refs_ok_def)

lemma refs_ok_listen_status:
  "refs_ok st \<Longrightarrow> refs_ok (st\<lparr>on_status_controller := c\<rparr>)"
  by (simp add: refs_ok_def)

lemma refs_ok_connected:
  "refs_ok st \<Longrightarrow> refs_ok (st\<lparr>on_connected_controller := c\<rparr>)"
  by (simp add: refs_ok_def)

lemma task_ok_heap_update:
  "task_ok st \<Longrightarrow>
   (\<forall>k. task st = Connecting k \<longrightarrow> transport s = NoTransport \<or> Suc i \<noteq> length (heap st)) \<Longrightarrow>
   task_ok (st\<lparr>heap := (heap st)[i := s]\<rparr>)"
  by (auto simp: task_ok_def last_list_update)

lemma is_connected_iff:
  "is_connected st \<longleftrightarrow>
     (\<exists>i. client st = Some i \<and> i < length (heap st) \<and> transport (heap st ! i) = TransportOpen)"
  by (simp add: is_connected_def is_closing_def split: option.splits)

lemma connecting_not_connected:
  "task_ok st \<Longrightarrow> task st = Connecting k \<Longrightarrow> \<not> is_connected st"
  by (auto simp: task_ok_def is_connected_iff last_conv_nth)

lemma task_ok_running_False: "task_ok st \<Longrightarrow> task_ok (st\<lparr>running := False\<rparr>)"
  by (simp add: task_ok_def)

lemma is_connected_running [simp]: "is_connected (st\<lparr>running := b\<rparr>) = is_connected st"
  by (simp add: is_connected_iff)

lemma task_ok_stop: "task_ok st \<Longrightarrow> task_ok (snd (stop st))"
proof -
  assume ok: "task_ok st"
  let ?st1 = "st\<lparr>running := False\<rparr>"
  have ok1: "task_ok ?st1" using ok by (rule task_ok_running_False)
  show ?thesis
  proof (cases "is_connected st")
    case False
    then show ?thesis using ok1 by (simp add: stop_def Let_def)
  next
    case True
    then have nc: "\<forall>k. task ?st1 \<noteq> Connecting k"
      using connecting_not_connected [OF ok] by auto
    have "task_ok (?st1\<lparr>heap := (heap ?st1)[i := s]\<rparr>)" for i s
      by (rule task_ok_heap_update [OF ok1]) (use nc in simp)
    then show ?thesis
      using True ok1 by (simp add: stop_def Let_def split: option.splits)
  qed
qed

lemma task_ok_rpc: "task_ok st \<Longrightarrow> task_ok (snd (rpc m args st))"
proof -
  assume ok: "task_ok st"
  show ?thesis
  proof (cases "is_connected st")
    case False
    then show ?thesis using ok by (simp add: rpc_def)
  next
    case True
    then have nc: "\<forall>k. task st \<noteq> Connecting k"
      using connecting_not_connected [OF ok] by auto
    have "task_ok (st\<lparr>heap := (heap st)[i := s]\<rparr>)" for i s
      by (rule task_ok_heap_update [OF ok]) (use nc in simp)
    then show ?thesis
      using True ok by (simp add: rpc_def forward_def split: option.splits)
  qed
qed

lemma task_ok_call: "task_ok st \<Longrightarrow> task_ok (snd (call c st))"
  by (cases c) (simp_all add: facade_defs task_ok_rpc)

lemma task_ok_handle_request: "task_ok st \<Longrightarrow> task_ok (snd (handle_request m args st))"
  by (auto simp: handle_request_def task_ok_def split: option.splits controller_ref.splits)

lemma connecting_last_fresh:
  "task_ok st \<Longrightarrow> task st = Connecting k \<Longrightarrow> Suc i = length (heap st) \<Longrightarrow>
   transport (heap st ! i) = NoTransport"
  by (cases "heap st" rule: rev_cases) (auto simp: task_ok_def)

lemma task_ok_lose: "task_ok st \<Longrightarrow> task_ok (lose i st)"
proof (cases "i < length (heap st) \<and> transport (heap st ! i) = TransportOpen")
  case True
  assume ok: "task_ok st"
  have "\<forall>k. task st = Connecting k \<longrightarrow> Suc i \<noteq> length (heap st)"
    using connecting_last_fresh [OF ok] True by auto
  then have "task_ok (st\<lparr>heap := (heap st)[i := connection_lost (heap st ! i)]\<rparr>)"
    by (intro task_ok_heap_update [OF ok]) simp
  then show ?thesis using True by (simp add: lose_def)
next
  case False
  then show "task_ok st \<Longrightarrow> task_ok (lose i st)" by (auto simp: lose_def)
qed

lemma task_ok_lose_client: "task_ok st \<Longrightarrow> task_ok (lose_client st)"
  by (simp add: lose_client_def task_ok_lose split: option.splits)

lemma refs_ok_handler_error:
  "refs_ok st \<Longrightarrow>
   refs_ok (st\<lparr>heap := (heap st)[i := (heap st ! i)\<lparr>handler_errors := es\<rparr>]\<rparr>)"
proof (cases "i < length (heap st)")
  case True
  assume ok: "refs_ok st"
  show ?thesis
    by (rule refs_ok_heap_update [OF ok])
       (use refs_ok_nth [OF ok True] in \<open>simp add: disconnect_fired_def\<close>)
next
  case False
  then show "refs_ok st \<Longrightarrow> ?thesis" by (simp add: list_update_beyond)
qed

lemma last_handler_error:
  "xs \<noteq> [] \<Longrightarrow>
   transport (last (xs[i := (xs ! i)\<lparr>handler_errors := es\<rparr>])) = transport (last xs)"
  by (cases "i = length xs - 1") (simp_all add: last_list_update last_conv_nth)

lemma task_ok_handler_error:
  "task_ok st \<Longrightarrow>
   task_ok (st\<lparr>heap := (heap st)[i := (heap st ! i)\<lparr>handler_errors := es\<rparr>]\<rparr>)"
  by (auto simp: task_ok_def last_handler_error)

lemma handle_request_raises:
  "fst (handle_request m args st) = Inl e \<Longrightarrow> snd (handle_request m args st) = st"
  by (auto simp: handle_request_def split: option.splits controller_ref.splits)

lemma push_cases:
  "push i m args st = snd (handle_request m args st) \<or>
   push i m args st = st \<or>
   (\<exists>es. push i m args st =
      st\<lparr>heap := (heap st)[i := (heap st ! i)\<lparr>handler_errors := es\<rparr>]\<rparr>)"
proof (cases "handle_request m args st")
  case (Pair r st')
  show ?thesis
  proof (cases r)
    case (Inl e)
    then have "st' = st" using Pair handle_request_raises [of m args st e] by simp
    then show ?thesis using Pair Inl by (auto simp: push_def)
  next
    case (Inr u)
    then show ?thesis using Pair by (simp add: push_def)
  qed
qed

lemma inv_refs: "inv st \<Longrightarrow> refs_ok st"
  by (simp add: inv_def)

lemma inv_StartCalled: "inv st \<Longrightarrow> inv (step version StartCalled st)"
  by (cases "task st") (simp_all add: inv_start inv_refs)

lemma inv_StopCalled: "inv st \<Longrightarrow> inv (step version StopCalled st)"
  by (simp add: inv_def refs_ok_stop task_ok_stop)

lemma inv_ConnectFailed: "inv st \<Longrightarrow> inv (step version ConnectFailed st)"
  by (cases "task st") (simp_all add: inv_after_attempt inv_refs)

lemma inv_VersionRejected: "inv st \<Longrightarrow> inv (step version VersionRejected st)"
  by (cases "task st") (simp_all add: inv_after_attempt inv_refs)

lemma inv_lose: "inv st \<Longrightarrow> inv (lose i st)"
  by (simp add: inv_def refs_ok_lose task_ok_lose)

lemma inv_lose_client: "inv st \<Longrightarrow> inv (lose_client st)"
  by (simp add: inv_def refs_ok_lose_client task_ok_lose_client)

lemma inv_client_lost: "inv st \<Longrightarrow> inv (client_lost st)"
  by (cases "task st")
     (simp_all add: client_lost_def inv_lose_client inv_after_attempt refs_ok_lose_client inv_refs)

lemma inv_ConnectionLost: "inv st \<Longrightarrow> inv (step version ConnectionLost st)"
  by (simp add: inv_client_lost)

lemma inv_SessionLost: "inv st \<Longrightarrow> inv (step version (SessionLost i) st)"
  by (simp add: inv_client_lost inv_lose)

lemma inv_VersionAccepted: "inv st \<Longrightarrow> inv (step version VersionAccepted st)"
  by (cases "task st") (auto simp: inv_def refs_ok_def task_ok_def)

lemma inv_Call: "inv st \<Longrightarrow> inv (step version (Call c) st)"
  by (simp add: inv_def refs_ok_call task_ok_call)

lemma inv_Push: "inv st \<Longrightarrow> inv (step version (Push i m args) st)"
  using push_cases [of i m args st]
  by (auto simp: inv_def refs_ok_handle_request task_ok_handle_request refs_ok_handler_error
      task_ok_handler_error)

lemma inv_Listen: "inv st \<Longrightarrow> inv (step version (Listen r) st)"
  by (cases r) (auto simp: inv_def refs_ok_def task_ok_def)


lemma is_connected_open_transport:
  "i < length (heap st) \<Longrightarrow> client st = Some i \<Longrightarrow> is_connected (open_transport i st)"
  by (simp add: is_connected_iff open_transport_def)

lemma step_ConnectSucceeded:
  assumes "inv st" and "task st = Connecting k"
  shows "step version ConnectSucceeded st =
    (forward (length (heap st) - 1) (''server.version'', [PStr version, PStr ''1.2''])
       (open_transport (length (heap st) - 1) st))\<lparr>task := AwaitingVersion k\<rparr>"
proof -
  let ?i = "length (heap st) - 1"
  have c: "client st = Some ?i" and ne: "heap st \<noteq> []"
    using assms by (simp_all add: inv_def task_ok_def)
  have lt: "?i < length (heap st)" using ne by simp
  have conn: "is_connected (open_transport ?i st)"
    using lt c by (rule is_connected_open_transport)
  have c': "client (open_transport ?i st) = Some ?i"
    using c by (simp add: open_transport_def)
  have "ensure_server_version version None (open_transport ?i st) =
      (Inr (?i, (''server.version'', [PStr version, PStr ''1.2''])),
       forward ?i (''server.version'', [PStr version, PStr ''1.2'']) (open_transport ?i st))"
    using conn c' by (simp add: ensure_server_version_def rpc_def)
  then show ?thesis
    using assms(2) c by simp
qed

lemma not_fired_open:
  "refs_ok st \<Longrightarrow> i < length (heap st) \<Longrightarrow> transport (heap st ! i) = NoTransport \<Longrightarrow>
   \<not> disconnect_fired (heap st ! i)"
  using refs_ok_nth [of st i] by auto

lemma inv_ConnectSucceeded: "inv st \<Longrightarrow> inv (step version ConnectSucceeded st)"
proof (cases "task st")
  case (Connecting k)
  assume i: "inv st"
  let ?i = "length (heap st) - 1"
  have c: "client st = Some ?i" and ne: "heap st \<noteq> []" and ds: "default_servers st \<noteq> []"
    and nt: "transport (last (heap st)) = NoTransport"
    using i Connecting by (simp_all add: inv_def task_ok_def)
  have r: "refs_ok st" using i by (rule inv_refs)
  have lt: "?i < length (heap st)" using ne by simp
  have nf: "\<not> disconnect_fired (heap st ! ?i)"
    using r lt nt ne by (intro not_fired_open) (simp_all add: last_conv_nth)
  have r1: "refs_ok (open_transport ?i st)"
    unfolding open_transport_def
    by (rule refs_ok_heap_update [OF r]) (use nf in \<open>simp add: disconnect_fired_def\<close>)
  have r2: "refs_ok (forward ?i req (open_transport ?i st))" for req
    using r1 is_connected_open_transport [OF lt c] c
    by (intro refs_ok_forward) (simp_all add: open_transport_def)
  have t2: "task_ok ((forward ?i req (open_transport ?i st))\<lparr>task := AwaitingVersion k\<rparr>)" for req
    using c ne ds by (simp add: task_ok_def forward_def open_transport_def)
  show ?thesis
    unfolding step_ConnectSucceeded [OF i Connecting] inv_def
    using r2 t2 by simp
qed simp_all

lemma inv_step: "inv st \<Longrightarrow> inv (step version ev st)"
  by (cases ev)
     (simp_all only: inv_StartCalled inv_StopCalled inv_ConnectSucceeded inv_ConnectFailed
        inv_VersionAccepted inv_VersionRejected inv_ConnectionLost inv_SessionLost inv_Call
        inv_Push inv_Listen)

lemma inv_run: "inv st \<Longrightarrow> inv (run version evs st)"
  by (induction evs arbitrary: st) (simp_all add: inv_step)

lemma inv_reachable: "inv (run version evs (new_network servers))"
  by (rule inv_run [OF inv_new])

lemma run_append: "run version (xs @ ys) st = run version ys (run version xs st)"
  by (induction xs arbitrary: st) simp_all

section \<open>The request facade: results\<close>

lemma rpc_disconnected: "\<not> is_connected st \<Longrightarrow> rpc m args st = (Inl ConnectionError, st)"
  by (simp add: rpc_def)

lemma rpc_connected:
  "is_connected st \<Longrightarrow> client st = Some i \<Longrightarrow>
   rpc m args st = (Inr (i, (m, args)), forward i (m, args) st)"
  by (simp add: rpc_def)

lemma is_connected_client: "is_connected st \<Longrightarrow> \<exists>i. client st = Some i"
  by (cases "client st") (simp_all add: is_connected_def)

lemmas eval_defs = new_network_def new_controller_def new_session_def add_def is_closing_def
  send_request_def connection_lost_def disconnect_fired_def is_connected_def forward_def rpc_def
  ensure_server_version_def facade_defs handle_request_def stop_def begin_attempt_def
  next_server_def after_attempt_def start_def open_transport_def lose_def lose_client_def
  client_lost_def push_def open_sessions_def attempted_def listen_def

text \<open>
  C2. Each of the seven facade operations, called while \<open>is_connected\<close> is false, raises
  the connection error of \<open>rpc\<close> and leaves the network, and with it every session, as
  it was: no request is handed to any session. Called while \<open>is_connected\<close> is true, it
  returns the pending request of the session referenced by \<open>client\<close>, and the only change
  is that \<open>send_request\<close> has been applied to that session. The error is the one the
  source names \<open>ConnectionError\<close>.
\<close>

theorem facade_fails_fast_when_disconnected:
  "(\<not> is_connected st \<longrightarrow> call c st = (Inl ConnectionError, st)) \<and>
   (is_connected st \<longrightarrow>
      (\<exists>i req. client st = Some i \<and>
         call c st = (Inr (i, req), st\<lparr>heap := (heap st)[i := send_request req (heap st ! i)]\<rparr>)))"
proof (intro conjI impI)
  assume "\<not> is_connected st"
  then show "call c st = (Inl ConnectionError, st)"
    by (cases c) (simp_all add: facade_defs rpc_disconnected)
next
  assume conn: "is_connected st"
  then obtain i where i: "client st = Some i"
    using is_connected_client by blast
  show "\<exists>i req. client st = Some i \<and>
         call c st = (Inr (i, req), st\<lparr>heap := (heap st)[i := send_request req (heap st ! i)]\<rparr>)"
    using conn i by (cases c) (simp_all add: facade_defs rpc_connected forward_def)
qed

theorem facade_fails_fast_when_disconnected_witness:
  "\<not> is_connected (new_network []) \<and>
   call (GetHistory (PStr ''addr'')) (new_network []) = (Inl ConnectionError, new_network []) \<and>
   is_connected (run ''0.3'' [StartCalled, ConnectSucceeded] (new_network [(''a.example'', 50001)])) \<and>
   fst (call (GetHistory (PStr ''addr''))
       (run ''0.3'' [StartCalled, ConnectSucceeded] (new_network [(''a.example'', 50001)]))) =
     Inr (0, (''blockchain.address.get_history'', [PStr ''addr'']))"
  using facade_fails_fast_when_disconnected [of "new_network []" "GetHistory (PStr ''addr'')"]
    facade_fails_fast_when_disconnected
      [of "run ''0.3'' [StartCalled, ConnectSucceeded] (new_network [(''a.example'', 50001)])"
          "GetHistory (PStr ''addr'')"]
  by (simp add: eval_defs)

text \<open>
  C8. While connected, each facade operation hands exactly one request to the client
  session: the wire method name of the operation with the caller's arguments in the
  order given. \<open>subscribe_headers\<close> takes no argument from its caller and sends the
  literal \<open>True\<close> as the only argument. The last conjunct says what handing a request
  to session \<open>i\<close> does: the request is appended to that session's sent requests.
\<close>

theorem facade_wire_requests:
  assumes "is_connected st" and "client st = Some i"
  shows
    "broadcast raw_transaction st =
       (Inr (i, (''blockchain.transaction.broadcast'', [raw_transaction])),
        forward i (''blockchain.transaction.broadcast'', [raw_transaction]) st) \<and>
     get_history address st =
       (Inr (i, (''blockchain.address.get_history'', [address])),
        forward i (''blockchain.address.get_history'', [address]) st) \<and>
     get_transaction tx_hash st =
       (Inr (i, (''blockchain.transaction.get'', [tx_hash])),
        forward i (''blockchain.transaction.get'', [tx_hash]) st) \<and>
     get_merkle tx_hash height st =
       (Inr (i, (''blockchain.transaction.get_merkle'', [tx_hash, height])),
        forward i (''blockchain.transaction.get_merkle'', [tx_hash, height]) st) \<and>
     get_headers height (Some count) st =
       (Inr (i, (''blockchain.block.headers'', [height, count])),
        forward i (''blockchain.block.headers'', [height, count]) st) \<and>
     subscribe_headers st =
       (Inr (i, (''blockchain.headers.subscribe'', [PBool True])),
        forward i (''blockchain.headers.subscribe'', [PBool True]) st) \<and>
     subscribe_address address st =
       (Inr (i, (''blockchain.address.subscribe'', [address])),
        forward i (''blockchain.address.subscribe'', [address]) st) \<and>
     sent (heap (forward i req st) ! i) = sent (heap st ! i) @ [req]"
proof -
  have "i < length (heap st)"
    using assms by (simp add: is_connected_def)
  then have "sent (heap (forward i req st) ! i) = sent (heap st ! i) @ [req]"
    by (simp add: forward_def send_request_def)
  then show ?thesis
    using assms by (simp add: facade_defs rpc_connected)
qed

theorem facade_wire_requests_witness:
  "is_connected (run ''0.3'' [StartCalled, ConnectSucceeded, VersionAccepted]
      (new_network [(''a.example'', 50001)])) \<and>
   client (run ''0.3'' [StartCalled, ConnectSucceeded, VersionAccepted]
      (new_network [(''a.example'', 50001)])) = Some 0 \<and>
   fst (get_merkle (PStr ''ab12'') (PInt 7)
      (run ''0.3'' [StartCalled, ConnectSucceeded, VersionAccepted]
        (new_network [(''a.example'', 50001)]))) =
     Inr (0, (''blockchain.transaction.get_merkle'', [PStr ''ab12'', PInt 7])) \<and>
   sent (heap (snd (get_merkle (PStr ''ab12'') (PInt 7)
      (run ''0.3'' [StartCalled, ConnectSucceeded, VersionAccepted]
        (new_network [(''a.example'', 50001)])))) ! 0) =
     [(''server.version'', [PStr ''0.3'', PStr ''1.2'']),
      (''blockchain.transaction.get_merkle'', [PStr ''ab12'', PInt 7])]"
  using facade_wire_requests
    [of "run ''0.3'' [StartCalled, ConnectSucceeded, VersionAccepted]
           (new_network [(''a.example'', 50001)])" 0
        _ _ _ "PStr ''ab12''" "PInt 7"]
  by (simp add: eval_defs)

text \<open>
  C10. \<open>get_headers\<close> called without a count sends \<open>blockchain.block.headers\<close> with
  the arguments \<open>(height, 10000)\<close>: while connected, exactly that request is appended to
  the requests sent on the client session, and nothing else changes.
\<close>

theorem get_headers_default_count:
  "get_headers height None st = rpc ''blockchain.block.headers'' [height, PInt 10000] st \<and>
   (is_connected st \<longrightarrow>
      (\<exists>i. client st = Some i \<and> i < length (heap st) \<and>
        get_headers height None st =
          (Inr (i, (''blockchain.block.headers'', [height, PInt 10000])),
           st\<lparr>heap := (heap st)[i := (heap st ! i)
              \<lparr>sent := sent (heap st ! i) @
                 [(''blockchain.block.headers'', [height, PInt 10000])]\<rparr>]\<rparr>) \<and>
        sent (heap (snd (get_headers height None st)) ! i) =
          sent (heap st ! i) @ [(''blockchain.block.headers'', [height, PInt 10000])]))"
proof -
  have "get_headers height None st = rpc ''blockchain.block.headers'' [height, PInt 10000] st"
    by (simp add: get_headers_def)
  moreover have "\<exists>i. client st = Some i \<and> i < length (heap st) \<and>
        get_headers height None st =
          (Inr (i, (''blockchain.block.headers'', [height, PInt 10000])),
           st\<lparr>heap := (heap st)[i := (heap st ! i)
              \<lparr>sent := sent (heap st ! i) @
                 [(''blockchain.block.headers'', [height, PInt 10000])]\<rparr>]\<rparr>) \<and>
        sent (heap (snd (get_headers height None st)) ! i) =
          sent (heap st ! i) @ [(''blockchain.block.headers'', [height, PInt 10000])]"
    if conn: "is_connected st"
  proof -
    obtain i where i: "client st = Some i" "i < length (heap st)"
      using conn by (auto simp: is_connected_iff)
    show ?thesis
      using conn i
      by (intro exI [where x = i])
         (simp add: get_headers_def rpc_connected forward_def send_request_def)
  qed
  ultimately show ?thesis by blast
qed

theorem get_headers_default_count_witness:
  "is_connected (run ''0.3'' [StartCalled, ConnectSucceeded, VersionAccepted]
      (new_network [(''a.example'', 50001)])) \<and>
   fst (get_headers (PInt 500) None
      (run ''0.3'' [StartCalled, ConnectSucceeded, VersionAccepted]
        (new_network [(''a.example'', 50001)]))) =
     Inr (0, (''blockchain.block.headers'', [PInt 500, PInt 10000])) \<and>
   sent (heap (snd (get_headers (PInt 500) None
      (run ''0.3'' [StartCalled, ConnectSucceeded, VersionAccepted]
        (new_network [(''a.example'', 50001)])))) ! 0) =
     [(''server.version'', [PStr ''0.3'', PStr ''1.2'']),
      (''blockchain.block.headers'', [PInt 500, PInt 10000])]"
  using get_headers_default_count
    [of "PInt 500" "run ''0.3'' [StartCalled, ConnectSucceeded, VersionAccepted]
           (new_network [(''a.example'', 50001)])"]
  by (simp add: eval_defs)

text \<open>
  C9. \<open>ensure_server_version\<close> compares nothing locally. When connected it sends the
  request \<open>server.version\<close> with the client's version string and the required version
  (\<open>'1.2'\<close> when none is given): exactly that request is appended to the requests sent
  on the client session, whatever the two versions are, and nothing else changes. When
  not connected it raises the connection error and sends nothing, exactly as \<open>rpc\<close>
  does for any other method. Once the request is pending, the attempt goes on to fire
  the connected event when the server accepts, and to the end of the attempt when the
  request fails.
\<close>

theorem ensure_server_version_defers_to_server:
  "(is_connected st \<longrightarrow>
      (\<exists>i. client st = Some i \<and> i < length (heap st) \<and>
        ensure_server_version version required st =
          (Inr (i, (''server.version'',
                    [PStr version, (case required of None \<Rightarrow> PStr ''1.2'' | Some r \<Rightarrow> r)])),
           st\<lparr>heap := (heap st)[i := (heap st ! i)
              \<lparr>sent := sent (heap st ! i) @
                 [(''server.version'',
                   [PStr version, (case required of None \<Rightarrow> PStr ''1.2'' | Some r \<Rightarrow> r)])]\<rparr>]\<rparr>) \<and>
        sent (heap (snd (ensure_server_version version required st)) ! i) =
          sent (heap st ! i) @
            [(''server.version'',
              [PStr version, (case required of None \<Rightarrow> PStr ''1.2'' | Some r \<Rightarrow> r)])])) \<and>
   (\<not> is_connected st \<longrightarrow>
      ensure_server_version version required st = (Inl ConnectionError, st) \<and>
      ensure_server_version version required st = rpc method args st) \<and>
   (is_connected st \<and> task st = AwaitingVersion k \<longrightarrow>
      task (step version VersionAccepted st) = AwaitingDisconnect k \<and>
      step version VersionRejected st = after_attempt k st)"
proof -
  let ?req = "(''server.version'',
     [PStr version, (case required of None \<Rightarrow> PStr ''1.2'' | Some r \<Rightarrow> r)])"
  have a: "\<exists>i. client st = Some i \<and> i < length (heap st) \<and>
        ensure_server_version version required st =
          (Inr (i, ?req),
           st\<lparr>heap := (heap st)[i := (heap st ! i)\<lparr>sent := sent (heap st ! i) @ [?req]\<rparr>]\<rparr>) \<and>
        sent (heap (snd (ensure_server_version version required st)) ! i) =
          sent (heap st ! i) @ [?req]"
    if conn: "is_connected st"
  proof -
    obtain i where i: "client st = Some i" "i < length (heap st)"
      using conn by (auto simp: is_connected_iff)
    show ?thesis
      using conn i
      by (intro exI [where x = i])
         (simp add: ensure_server_version_def rpc_connected forward_def send_request_def)
  qed
  have b: "\<not> is_connected st \<longrightarrow>
      ensure_server_version version required st = (Inl ConnectionError, st) \<and>
      ensure_server_version version required st = rpc method args st"
    by (simp add: ensure_server_version_def rpc_disconnected)
  have c: "is_connected st \<and> task st = AwaitingVersion k \<longrightarrow>
      task (step version VersionAccepted st) = AwaitingDisconnect k \<and>
      step version VersionRejected st = after_attempt k st"
    by simp
  from a b c show ?thesis by blast
qed

theorem ensure_server_version_defers_to_server_witness:
  "is_connected (run ''0.0.1'' [StartCalled, ConnectSucceeded] (new_network [(''a.example'', 50001)])) \<and>
   task (run ''0.0.1'' [StartCalled, ConnectSucceeded] (new_network [(''a.example'', 50001)])) =
     AwaitingVersion 0 \<and>
   fst (ensure_server_version ''0.0.1'' (Some (PStr ''9.9''))
     (run ''0.0.1'' [StartCalled, ConnectSucceeded] (new_network [(''a.example'', 50001)]))) =
     Inr (0, (''server.version'', [PStr ''0.0.1'', PStr ''9.9''])) \<and>
   sent (heap (snd (ensure_server_version ''0.0.1'' (Some (PStr ''9.9''))
     (run ''0.0.1'' [StartCalled, ConnectSucceeded] (new_network [(''a.example'', 50001)])))) ! 0) =
     [(''server.version'', [PStr ''0.0.1'', PStr ''1.2'']),
      (''server.version'', [PStr ''0.0.1'', PStr ''9.9''])] \<and>
   task (step ''0.0.1'' VersionAccepted
     (run ''0.0.1'' [StartCalled, ConnectSucceeded] (new_network [(''a.example'', 50001)]))) =
     AwaitingDisconnect 0 \<and>
   \<not> is_connected (new_network [(''a.example'', 50001)]) \<and>
   ensure_server_version ''0.0.1'' None (new_network [(''a.example'', 50001)]) =
     (Inl ConnectionError, new_network [(''a.example'', 50001)])"
  using ensure_server_version_defers_to_server
      [of "run ''0.0.1'' [StartCalled, ConnectSucceeded] (new_network [(''a.example'', 50001)])"
          "''0.0.1''" "Some (PStr ''9.9'')" _ _ 0]
    ensure_server_version_defers_to_server
      [of "new_network [(''a.example'', 50001)]" "''0.0.1''" None]
  by (simp add: eval_defs)

section \<open>Stopping\<close>

lemma stop_not_connected: "\<not> is_connected (snd (stop st))"
  by (auto simp: stop_def Let_def is_connected_iff connection_lost_def split: option.splits)

lemma stop_not_running: "\<not> running (snd (stop st))"
  by (simp add: stop_def Let_def split: option.splits)

lemma stop_returns: "fst (stop st) = Inr ()"
  by (simp add: stop_def Let_def is_connected_def split: option.splits)

text \<open>
  C4 fails in the code. \<open>stop\<close> closes the client session only when \<open>is_connected\<close>
  is true, and \<open>start\<close> reads \<open>running\<close> only at the end of the loop body. Called
  while \<open>create_connection\<close> of the first attempt is pending, \<open>stop\<close> returns without
  error with \<open>running\<close> and \<open>is_connected\<close> false, having closed nothing. The
  attempt then goes on: the transport connects, \<open>server.version\<close> is sent and
  accepted, and the connected event fires. After \<open>stop\<close> has returned the network is
  connected through a live session while \<open>running\<close> is false, and a second \<open>stop\<close>
  is not without effect: it closes that session.
\<close>

theorem stop_during_connect_leaves_live_session:
  "task (run ''0.3'' [StartCalled] (new_network [(''a.example'', 50001)])) = Connecting 0 \<and>
   stop (run ''0.3'' [StartCalled] (new_network [(''a.example'', 50001)])) =
     (Inr (), run ''0.3'' [StartCalled, StopCalled] (new_network [(''a.example'', 50001)])) \<and>
   \<not> is_connected (run ''0.3'' [StartCalled, StopCalled] (new_network [(''a.example'', 50001)])) \<and>
   open_sessions (run ''0.3'' [StartCalled, StopCalled] (new_network [(''a.example'', 50001)])) = [] \<and>
   \<not> running (run ''0.3'' [StartCalled, StopCalled, ConnectSucceeded, VersionAccepted]
      (new_network [(''a.example'', 50001)])) \<and>
   is_connected (run ''0.3'' [StartCalled, StopCalled, ConnectSucceeded, VersionAccepted]
      (new_network [(''a.example'', 50001)])) \<and>
   client (run ''0.3'' [StartCalled, StopCalled, ConnectSucceeded, VersionAccepted]
      (new_network [(''a.example'', 50001)])) = Some 0 \<and>
   open_sessions (run ''0.3'' [StartCalled, StopCalled, ConnectSucceeded, VersionAccepted]
      (new_network [(''a.example'', 50001)])) = [0] \<and>
   published (on_connected_controller
     (run ''0.3'' [StartCalled, StopCalled, ConnectSucceeded, VersionAccepted]
        (new_network [(''a.example'', 50001)]))) = [PBool True] \<and>
   open_sessions (snd (stop (run ''0.3'' [StartCalled, StopCalled, ConnectSucceeded, VersionAccepted]
      (new_network [(''a.example'', 50001)])))) = []"
  by (simp add: eval_defs Let_def)

section \<open>Push dispatch: results\<close>

lemma table_reachable:
  "subscription_controllers (run version evs (new_network servers)) =
     [(''blockchain.headers.subscribe'', HeaderController),
      (''blockchain.address.subscribe'', StatusController)]"
  using inv_reachable [of version evs servers]
  by (simp add: inv_def refs_ok_def new_network_def)

text \<open>
  C1, as stated, fails: for a method that is not a key of \<open>subscription_controllers\<close>
  the dictionary subscript in \<open>handle_request\<close> raises \<open>KeyError\<close>; the message is not
  dropped silently.
\<close>

theorem unregistered_push_counterexample:
  "handle_request ''blockchain.scripthash.subscribe'' [PStr ''ab'', PStr ''cd'']
      (new_network [(''a.example'', 50001)]) =
     (Inl KeyError, new_network [(''a.example'', 50001)])"
  by (simp add: handle_request_def new_network_def)

text \<open>
  C1, amended. In every reachable network, a push whose method is neither
  \<open>blockchain.headers.subscribe\<close> nor \<open>blockchain.address.subscribe\<close> makes
  \<open>handle_request\<close> raise \<open>KeyError\<close> before anything is added to a controller:
  nothing is published to any channel and \<open>handle_request\<close> changes nothing in the
  network. The exception is not dropped: it leaves \<open>handle_request\<close> for the library
  that called it, and what follows from there is not determined by this source.
\<close>

theorem unregistered_push_raises_key_error:
  assumes "method \<noteq> ''blockchain.headers.subscribe''"
    and "method \<noteq> ''blockchain.address.subscribe''"
  shows "handle_request method args (run version evs (new_network servers)) =
           (Inl KeyError, run version evs (new_network servers))"
  using assms by (simp add: handle_request_def table_reachable)

theorem unregistered_push_raises_key_error_witness:
  "''blockchain.scripthash.subscribe'' \<noteq> ''blockchain.headers.subscribe'' \<and>
   ''blockchain.scripthash.subscribe'' \<noteq> ''blockchain.address.subscribe'' \<and>
   handle_request ''blockchain.scripthash.subscribe'' [PStr ''ab'']
      (run ''0.3'' [StartCalled, ConnectSucceeded] (new_network [(''a.example'', 50001)])) =
     (Inl KeyError, run ''0.3'' [StartCalled, ConnectSucceeded] (new_network [(''a.example'', 50001)]))"
  using unregistered_push_raises_key_error
      [of "''blockchain.scripthash.subscribe''" "[PStr ''ab'']" "''0.3''"
          "[StartCalled, ConnectSucceeded]" "[(''a.example'', 50001)]"]
  by simp

text \<open>
  C5. The constructor builds the dictionary with exactly two entries, and no method,
  awaited completion, push or attached consumer changes it afterwards. A push for
  \<open>blockchain.headers.subscribe\<close> adds its arguments to the header controller and
  nothing else; a push for \<open>blockchain.address.subscribe\<close> adds them to the status
  controller and nothing else. Adding to a controller appends the value to the queue of
  every attached consumer.
\<close>

theorem subscription_routing_table:
  "subscription_controllers (new_network servers) =
     [(''blockchain.headers.subscribe'', HeaderController),
      (''blockchain.address.subscribe'', StatusController)] \<and>
   subscription_controllers (run version evs (new_network servers)) =
     subscription_controllers (new_network servers) \<and>
   handle_request ''blockchain.headers.subscribe'' args (run version evs (new_network servers)) =
     (Inr (), (run version evs (new_network servers))
        \<lparr>on_header_controller :=
           add (PList args) (on_header_controller (run version evs (new_network servers)))\<rparr>) \<and>
   handle_request ''blockchain.address.subscribe'' args (run version evs (new_network servers)) =
     (Inr (), (run version evs (new_network servers))
        \<lparr>on_status_controller :=
           add (PList args) (on_status_controller (run version evs (new_network servers)))\<rparr>) \<and>
   listeners (add (PList args) c) = map (\<lambda>q. q @ [PList args]) (listeners c)"
  by (simp add: table_reachable handle_request_def add_def) (simp add: new_network_def)

lemma push_delivery_example:
  "listeners (on_header_controller (run ''0.3''
      [StartCalled, ConnectSucceeded, VersionAccepted,
       Listen HeaderController, Push 0 ''blockchain.headers.subscribe'' [PInt 1],
       Listen HeaderController, Listen StatusController,
       Push 0 ''blockchain.headers.subscribe'' [PInt 2],
       Push 0 ''blockchain.address.subscribe'' [PStr ''a'', PStr ''s'']]
      (new_network [(''a.example'', 50001)]))) =
     [[PList [PInt 1], PList [PInt 2]], [PList [PInt 2]]]"
  by (simp add: eval_defs)

lemma push_error_example:
  "handler_errors (heap (run ''0.3''
      [StartCalled, ConnectSucceeded, VersionAccepted,
       Push 0 ''blockchain.scripthash.subscribe'' [PStr ''ab'']]
      (new_network [(''a.example'', 50001)])) ! 0) = [KeyError]"
  by (simp add: eval_defs)

section \<open>The failover loop: results\<close>

lemma default_servers_next_server: "default_servers (next_server k st) = default_servers st"
  by (simp add: next_server_def begin_attempt_def split: list.splits)

lemma default_servers_after_attempt: "default_servers (after_attempt k st) = default_servers st"
  by (simp add: after_attempt_def default_servers_next_server)

lemma default_servers_rpc: "default_servers (snd (rpc m args st)) = default_servers st"
  by (simp add: rpc_def forward_def split: option.splits)

lemma default_servers_call: "default_servers (snd (call c st)) = default_servers st"
  by (cases c) (simp_all add: facade_defs default_servers_rpc)

lemma default_servers_stop: "default_servers (snd (stop st)) = default_servers st"
  by (simp add: stop_def Let_def split: option.splits)

lemma default_servers_lose: "default_servers (lose i st) = default_servers st"
  by (simp add: lose_def)

lemma default_servers_lose_client: "default_servers (lose_client st) = default_servers st"
  by (simp add: lose_client_def default_servers_lose split: option.splits)

lemma default_servers_client_lost: "default_servers (client_lost st) = default_servers st"
  by (simp add: client_lost_def default_servers_lose_client default_servers_after_attempt
      split: task.splits)


lemma default_servers_handle_request:
  "default_servers (snd (handle_request m args st)) = default_servers st"
  by (simp add: handle_request_def split: option.splits controller_ref.splits)

lemma default_servers_ConnectSucceeded:
  "default_servers (step version ConnectSucceeded st) = default_servers st"
  by (auto simp: ensure_server_version_def default_servers_after_attempt open_transport_def
      rpc_def forward_def split: task.splits option.splits prod.splits sum.splits if_splits)

lemma default_servers_push: "default_servers (push i m args st) = default_servers st"
  using push_cases [of i m args st] default_servers_handle_request [of m args st] by auto

lemma default_servers_step: "default_servers (step version ev st) = default_servers st"
proof (cases ev)
  case ConnectSucceeded
  then show ?thesis by (simp only: default_servers_ConnectSucceeded)
next
  case (Listen r)
  then show ?thesis by (cases r) simp_all
qed (simp_all add: start_def default_servers_next_server default_servers_after_attempt
      default_servers_call default_servers_stop default_servers_client_lost
      default_servers_lose default_servers_push split: task.splits)

lemma default_servers_run: "default_servers (run version evs st) = default_servers st"
  by (induction evs arbitrary: st) (simp_all add: default_servers_step)

lemma default_servers_reachable:
  "default_servers (run version evs (new_network servers)) = servers"
  by (simp add: default_servers_run) (simp add: new_network_def)

lemma after_attempt_running:
  "running st \<Longrightarrow> default_servers st \<noteq> [] \<Longrightarrow> after_attempt k st = begin_attempt (Suc k) st"
  by (simp add: after_attempt_def next_server_def split: list.splits)


lemma started_running_next_server:
  "running st \<Longrightarrow> running (next_server k st)"
  by (simp add: next_server_def begin_attempt_def split: list.splits)

lemma running_lose: "running (lose i st) = running st"
  by (simp add: lose_def)

lemma task_lose: "task (lose i st) = task st"
  by (simp add: lose_def)

lemma running_lose_client: "running (lose_client st) = running st"
  by (simp add: lose_client_def running_lose split: option.splits)

lemma task_lose_client: "task (lose_client st) = task st"
  by (simp add: lose_client_def task_lose split: option.splits)

lemma running_push: "running (push i m args st) = running st"
  by (auto simp: push_def handle_request_def split: option.splits controller_ref.splits)

lemma task_push: "task (push i m args st) = task st"
  by (auto simp: push_def handle_request_def split: option.splits controller_ref.splits)

lemma started_running_client_lost:
  assumes "task st \<noteq> NotStarted \<longrightarrow> running st"
  shows "task (client_lost st) \<noteq> NotStarted \<longrightarrow> running (client_lost st)"
  using assms
  by (cases "task st")
     (simp_all add: client_lost_def running_lose_client task_lose_client after_attempt_def
        started_running_next_server)

lemma started_running_step:
  assumes "ev \<noteq> StopCalled" and "task st \<noteq> NotStarted \<longrightarrow> running st"
  shows "task (step version ev st) \<noteq> NotStarted \<longrightarrow> running (step version ev st)"
proof (cases ev)
  case StartCalled
  then show ?thesis
    using assms by (cases "task st") (simp_all add: start_def started_running_next_server)
next
  case StopCalled
  then show ?thesis using assms by simp
next
  case ConnectSucceeded
  then show ?thesis
    using assms
    by (auto simp: ensure_server_version_def rpc_def forward_def open_transport_def
        after_attempt_def started_running_next_server
        split: task.splits option.splits if_splits)
next
  case ConnectFailed
  then show ?thesis
    using assms by (cases "task st") (simp_all add: after_attempt_def started_running_next_server)
next
  case VersionAccepted
  then show ?thesis using assms by (cases "task st") simp_all
next
  case VersionRejected
  then show ?thesis
    using assms by (cases "task st") (simp_all add: after_attempt_def started_running_next_server)
next
  case ConnectionLost
  then show ?thesis
    using started_running_client_lost [OF assms(2)] by simp
next
  case (SessionLost i)
  then show ?thesis
    using started_running_client_lost [OF assms(2)] assms(2)
    by (simp add: running_lose task_lose)
next
  case (Call c)
  then show ?thesis
    using assms by (cases c) (auto simp: facade_defs rpc_def forward_def split: option.splits)
next
  case (Push i m args)
  then show ?thesis
    using assms by (simp add: running_push task_push)
next
  case (Listen r)
  then show ?thesis using assms by (cases r) simp_all
qed

lemma started_running_run:
  "StopCalled \<notin> set evs \<Longrightarrow> task st \<noteq> NotStarted \<longrightarrow> running st \<Longrightarrow>
   task (run version evs st) \<noteq> NotStarted \<longrightarrow> running (run version evs st)"
proof (induction evs arbitrary: st)
  case Nil
  then show ?case by simp
next
  case (Cons ev evs)
  have "task (step version ev st) \<noteq> NotStarted \<longrightarrow> running (step version ev st)"
    using Cons.prems by (intro started_running_step) auto
  then show ?case
    using Cons.IH [of "step version ev st"] Cons.prems by simp
qed

lemma returned_only_after_stop:
  assumes "servers \<noteq> []" and "task (run version evs (new_network servers)) = Returned"
  shows "StopCalled \<in> set evs \<and> \<not> running (run version evs (new_network servers))"
proof -
  let ?st = "run version evs (new_network servers)"
  have "inv ?st" by (rule inv_reachable)
  then have nr: "\<not> running ?st"
    using assms by (simp add: inv_def task_ok_def default_servers_reachable)
  have "StopCalled \<in> set evs"
  proof (rule ccontr)
    assume "StopCalled \<notin> set evs"
    then have "task ?st \<noteq> NotStarted \<longrightarrow> running ?st"
      by (rule started_running_run) (simp add: new_network_def)
    then show False using nr assms(2) by simp
  qed
  then show ?thesis using nr by simp
qed




lemma attempted_heap_update:
  "host s = host (heap st ! i) \<Longrightarrow> port s = port (heap st ! i) \<Longrightarrow>
   attempted (st\<lparr>heap := (heap st)[i := s]\<rparr>) = attempted st"
proof (cases "i < length (heap st)")
  case True
  assume "host s = host (heap st ! i)" and "port s = port (heap st ! i)"
  then show ?thesis
    using True by (simp add: attempted_def map_update list_update_same_conv)
next
  case False
  then show ?thesis by (simp add: attempted_def list_update_beyond)
qed

lemma attempted_begin_attempt:
  "attempted (begin_attempt k st) =
     attempted st @ [default_servers st ! (k mod length (default_servers st))]"
  by (simp add: attempted_def begin_attempt_def new_session_def)

lemma attempted_lose_client: "attempted (lose_client st) = attempted st"
  by (auto simp: lose_client_def lose_def attempted_heap_update connection_lost_def
      split: option.splits)

lemma connect_succeeded_summary:
  assumes "inv st" and "task st = Connecting k"
  shows "task (step version ConnectSucceeded st) = AwaitingVersion k"
    and "running (step version ConnectSucceeded st) = running st"
    and "attempted (step version ConnectSucceeded st) = attempted st"
    and "is_connected (step version ConnectSucceeded st)"
proof -
  let ?i = "length (heap st) - 1"
  have c: "client st = Some ?i" and ne: "heap st \<noteq> []"
    using assms by (simp_all add: inv_def task_ok_def)
  have lt: "?i < length (heap st)" using ne by simp
  note eq = step_ConnectSucceeded [OF assms]
  show "task (step version ConnectSucceeded st) = AwaitingVersion k"
    unfolding eq by simp
  show "running (step version ConnectSucceeded st) = running st"
    unfolding eq by (simp add: forward_def open_transport_def)
  have "attempted (open_transport ?i st) = attempted st"
    unfolding open_transport_def by (rule attempted_heap_update) simp_all
  moreover have "attempted (forward ?i req st') = attempted st'" for req st'
    unfolding forward_def by (rule attempted_heap_update) (simp_all add: send_request_def)
  ultimately show "attempted (step version ConnectSucceeded st) = attempted st"
    unfolding eq by (simp add: attempted_def)
  show "is_connected (step version ConnectSucceeded st)"
    unfolding eq using c lt
    by (simp add: is_connected_iff forward_def open_transport_def send_request_def)
qed

lemma attempt_round:
  assumes i: "inv st" and r: "running st" and t: "task st = Connecting k"
  shows "running (run version (events_of oc) st) \<and>
         task (run version (events_of oc) st) = Connecting (Suc k) \<and>
         attempted (run version (events_of oc) st) =
           attempted st @ [default_servers st ! (Suc k mod length (default_servers st))]"
proof -
  have ds: "default_servers st \<noteq> []"
    using i t by (simp add: inv_def task_ok_def)
  let ?st1 = "step version ConnectSucceeded st"
  note s1 = connect_succeeded_summary [OF i t, of version]
  have ds1: "default_servers ?st1 = default_servers st"
    by (rule default_servers_step)
  show ?thesis
  proof (cases oc)
    case ConnectRaises
    then show ?thesis
      using r t ds
      by (simp add: after_attempt_running attempted_begin_attempt) (simp add: begin_attempt_def)
  next
    case VersionCheckRaises
    have "step version VersionRejected ?st1 = begin_attempt (Suc k) ?st1"
      using s1 r ds ds1 by (simp add: after_attempt_running)
    then show ?thesis
      using VersionCheckRaises s1 r ds1
      by (simp add: attempted_begin_attempt) (simp add: begin_attempt_def)
  next
    case Disconnects
    let ?st2 = "?st1\<lparr>on_connected_controller := add (PBool True) (on_connected_controller ?st1),
                     task := AwaitingDisconnect k\<rparr>"
    have e2: "step version VersionAccepted ?st1 = ?st2"
      using s1 by simp
    have a2: "attempted ?st2 = attempted st"
      using s1(3) by (simp add: attempted_def)
    have "step version ConnectionLost ?st2 = after_attempt k (lose_client ?st2)"
      by (simp add: client_lost_def)
    also have "\<dots> = begin_attempt (Suc k) (lose_client ?st2)"
      using s1 r ds ds1
      by (intro after_attempt_running) (simp_all add: running_lose_client default_servers_lose_client)
    finally have e3: "step version ConnectionLost ?st2 = begin_attempt (Suc k) (lose_client ?st2)" .
    have "run version (events_of oc) st = begin_attempt (Suc k) (lose_client ?st2)"
      using Disconnects e2 e3 by simp
    then show ?thesis
      using s1 r ds1 a2
      by (simp add: attempted_begin_attempt attempted_lose_client default_servers_lose_client)
         (simp add: begin_attempt_def running_lose_client)
  qed
qed

lemma attempt_rounds:
  assumes "inv st" and "running st" and "task st = Connecting k"
  shows "running (run version (concat (map events_of ocs)) st) \<and>
         task (run version (concat (map events_of ocs)) st) = Connecting (k + length ocs) \<and>
         attempted (run version (concat (map events_of ocs)) st) =
           attempted st @
             map (\<lambda>j. default_servers st ! (j mod length (default_servers st)))
               [Suc k..<Suc (k + length ocs)]"
  using assms
proof (induction ocs arbitrary: st k)
  case Nil
  then show ?case by simp
next
  case (Cons oc ocs)
  let ?st' = "run version (events_of oc) st"
  have rnd: "running ?st' \<and> task ?st' = Connecting (Suc k) \<and>
      attempted ?st' = attempted st @ [default_servers st ! (Suc k mod length (default_servers st))]"
    using Cons.prems by (rule attempt_round)
  have i': "inv ?st'" using Cons.prems(1) by (rule inv_run)
  have ds': "default_servers ?st' = default_servers st" by (rule default_servers_run)
  have ih: "running (run version (concat (map events_of ocs)) ?st') \<and>
         task (run version (concat (map events_of ocs)) ?st') = Connecting (Suc k + length ocs) \<and>
         attempted (run version (concat (map events_of ocs)) ?st') =
           attempted ?st' @
             map (\<lambda>j. default_servers ?st' ! (j mod length (default_servers ?st')))
               [Suc (Suc k)..<Suc (Suc k + length ocs)]"
    using i' rnd by (intro Cons.IH) simp_all
  let ?f = "\<lambda>j. default_servers st ! (j mod length (default_servers st))"
  have "Suc k < Suc (Suc k + length ocs)" by simp
  then have "[Suc k..<Suc (Suc k + length ocs)] = Suc k # [Suc (Suc k)..<Suc (Suc k + length ocs)]"
    by (rule upt_conv_Cons)
  then have up: "[Suc k..<Suc (k + length (oc # ocs))] =
      Suc k # [Suc (Suc k)..<Suc (Suc k + length ocs)]"
    by (simp del: upt_Suc)
  have att: "attempted ?st' @ map ?f [Suc (Suc k)..<Suc (Suc k + length ocs)] =
      attempted st @ map ?f [Suc k..<Suc (k + length (oc # ocs))]"
    unfolding up using rnd by (simp del: upt_Suc)
  have e: "run version (concat (map events_of (oc # ocs))) st =
      run version (concat (map events_of ocs)) ?st'"
    by (simp add: run_append)
  have len: "Suc k + length ocs = k + length (oc # ocs)" by simp
  show ?case
    unfolding e using ih att by (simp del: upt_Suc add: ds')
qed


lemma started_state:
  assumes "servers \<noteq> []"
  shows "inv (step version StartCalled (new_network servers))"
    and "running (step version StartCalled (new_network servers))"
    and "task (step version StartCalled (new_network servers)) = Connecting 0"
    and "attempted (step version StartCalled (new_network servers)) = [servers ! 0]"
    and "default_servers (step version StartCalled (new_network servers)) = servers"
proof -
  show "inv (step version StartCalled (new_network servers))"
    by (rule inv_step [OF inv_new])
  show "default_servers (step version StartCalled (new_network servers)) = servers"
    unfolding default_servers_step by (simp add: new_network_def)
  have "step version StartCalled (new_network servers) =
      begin_attempt 0 ((new_network servers)\<lparr>running := True\<rparr>)"
    using assms by (simp add: new_network_def start_def next_server_def split: list.splits)
  then show "running (step version StartCalled (new_network servers))"
    and "task (step version StartCalled (new_network servers)) = Connecting 0"
    and "attempted (step version StartCalled (new_network servers)) = [servers ! 0]"
    by (simp_all add: begin_attempt_def attempted_def new_session_def new_network_def)
qed

lemma cycle_covers:
  assumes "length (servers :: server list) \<le> Suc m"
  shows "set servers \<subseteq> set (map (\<lambda>j. servers ! (j mod length servers)) [0..<Suc m])"
proof
  fix x assume "x \<in> set servers"
  then obtain i where i: "i < length servers" "servers ! i = x"
    by (auto simp: in_set_conv_nth)
  then have "i < Suc m" and "servers ! (i mod length servers) = x"
    using assms by simp_all
  then have "x \<in> (\<lambda>j. servers ! (j mod length servers)) ` {0..<Suc m}"
    by (intro image_eqI [where x = i]) simp_all
  then show "x \<in> set (map (\<lambda>j. servers ! (j mod length servers)) [0..<Suc m])"
    by (simp del: upt_Suc)
qed

text \<open>
  C3, as stated, fails: over an empty server pool \<open>start\<close> returns at once, with
  \<open>running\<close> still true, no \<open>stop\<close> and no attempt made.
\<close>

theorem failover_without_stop_counterexample:
  "task (run ''0.3'' [StartCalled] (new_network [])) = Returned \<and>
   running (run ''0.3'' [StartCalled] (new_network [])) \<and>
   StopCalled \<notin> set [StartCalled] \<and>
   attempted (run ''0.3'' [StartCalled] (new_network [])) = []"
  by (simp add: eval_defs)

text \<open>
  C3, amended. Let the server pool be non-empty. After \<open>start\<close> and any sequence of
  attempt outcomes (the connect raises, the version check raises, or the session
  disconnects) without a \<open>stop\<close>, the loop is still running and connecting to the next
  server; the servers attempted so far are the elements of the pool taken cyclically,
  one per attempt, so that every server of the pool has been attempted as soon as the
  number of attempts reaches the size of the pool. Under any sequence of events
  whatever, \<open>start\<close> has returned only if \<open>stop\<close> was called, and \<open>running\<close> is then
  false.
\<close>

theorem failover_cycles_until_stopped:
  assumes "servers \<noteq> []"
  shows
    "running (run version (StartCalled # concat (map events_of outcomes)) (new_network servers)) \<and>
     task (run version (StartCalled # concat (map events_of outcomes)) (new_network servers)) =
       Connecting (length outcomes) \<and>
     attempted (run version (StartCalled # concat (map events_of outcomes)) (new_network servers)) =
       map (\<lambda>j. servers ! (j mod length servers)) [0..<Suc (length outcomes)] \<and>
     (length servers \<le> Suc (length outcomes) \<longrightarrow>
        set servers \<subseteq>
          set (attempted
            (run version (StartCalled # concat (map events_of outcomes)) (new_network servers)))) \<and>
     (task (run version evs (new_network servers)) = Returned \<longrightarrow>
        StopCalled \<in> set evs \<and> \<not> running (run version evs (new_network servers)))"
proof -
  let ?begin = "step version StartCalled (new_network servers)"
  let ?st = "run version (StartCalled # concat (map events_of outcomes)) (new_network servers)"
  let ?f = "\<lambda>j. servers ! (j mod length servers)"
  note s0 = started_state [OF assms, of version]
  have e: "?st = run version (concat (map events_of outcomes)) ?begin" by simp
  have rounds: "running ?st \<and> task ?st = Connecting (0 + length outcomes) \<and>
      attempted ?st = attempted ?begin @
        map (\<lambda>j. default_servers ?begin ! (j mod length (default_servers ?begin)))
          [Suc 0..<Suc (0 + length outcomes)]"
    unfolding e using s0(1,2,3) by (rule attempt_rounds)
  have "[0..<Suc (length outcomes)] = 0 # [Suc 0..<Suc (length outcomes)]"
    by (rule upt_conv_Cons) simp
  then have "map ?f [0..<Suc (length outcomes)] = [servers ! 0] @ map ?f [Suc 0..<Suc (length outcomes)]"
    using assms by (simp del: upt_Suc)
  then have att: "attempted ?st = map ?f [0..<Suc (length outcomes)]"
    using rounds s0(4,5) by (simp del: upt_Suc)
  have cov: "length servers \<le> Suc (length outcomes) \<longrightarrow> set servers \<subseteq> set (attempted ?st)"
    unfolding att using cycle_covers [of servers "length outcomes"] by blast
  have ret: "task (run version evs (new_network servers)) = Returned \<longrightarrow>
        StopCalled \<in> set evs \<and> \<not> running (run version evs (new_network servers))"
    using returned_only_after_stop [OF assms] by blast
  from rounds att cov ret show ?thesis by simp
qed

theorem failover_cycles_until_stopped_witness:
  "[(''a.example'', 50001), (''b.example'', 50002)] \<noteq> [] \<and>
   task (run ''0.3'' (StartCalled # concat (map events_of [ConnectRaises, VersionCheckRaises, Disconnects]))
      (new_network [(''a.example'', 50001), (''b.example'', 50002)])) = Connecting 3 \<and>
   attempted (run ''0.3''
      (StartCalled # concat (map events_of [ConnectRaises, VersionCheckRaises, Disconnects]))
      (new_network [(''a.example'', 50001), (''b.example'', 50002)])) =
     [(''a.example'', 50001), (''b.example'', 50002), (''a.example'', 50001), (''b.example'', 50002)] \<and>
   task (run ''0.3'' [StartCalled, StopCalled, ConnectFailed]
      (new_network [(''a.example'', 50001), (''b.example'', 50002)])) = Returned \<and>
   StopCalled \<in> set [StartCalled, StopCalled, ConnectFailed]"
  using failover_cycles_until_stopped
      [of "[(''a.example'', 50001), (''b.example'', 50002)]" "''0.3''"
          "[ConnectRaises, VersionCheckRaises, Disconnects]"
          "[StartCalled, StopCalled, ConnectFailed]"]
  by (simp add: eval_defs Let_def mod_Suc)

section \<open>Sessions over time\<close>

text \<open>
  C7 fails in the code. When the version check of an attempt fails on a connection
  that stays up, the handler only logs: nothing closes the session, and the next
  iteration replaces the reference in \<open>client\<close> by a newly constructed session. Once
  that one connects, two sessions hold a live connection at the same time, the
  abandoned one without its disconnect notification ever having fired. (\<open>stop\<close>
  closes the session it leaves; this path does not.) The new session is a fresh
  object for the next server, as the claim says.
\<close>

theorem failed_version_check_leaves_session_open:
  "open_sessions (run ''0.3'' [StartCalled, ConnectSucceeded, VersionRejected, ConnectSucceeded]
      (new_network [(''a.example'', 50001), (''b.example'', 50002)])) = [0, 1] \<and>
   client (run ''0.3'' [StartCalled, ConnectSucceeded, VersionRejected, ConnectSucceeded]
      (new_network [(''a.example'', 50001), (''b.example'', 50002)])) = Some 1 \<and>
   attempted (run ''0.3'' [StartCalled, ConnectSucceeded, VersionRejected, ConnectSucceeded]
      (new_network [(''a.example'', 50001), (''b.example'', 50002)])) =
     [(''a.example'', 50001), (''b.example'', 50002)] \<and>
   \<not> disconnect_fired (heap (run ''0.3''
      [StartCalled, ConnectSucceeded, VersionRejected, ConnectSucceeded]
      (new_network [(''a.example'', 50001), (''b.example'', 50002)])) ! 0) \<and>
   heap (run ''0.3'' [StartCalled, ConnectSucceeded, VersionRejected]
      (new_network [(''a.example'', 50001), (''b.example'', 50002)])) ! 1 =
     new_session (''b.example'', 50002) \<and>
   running (run ''0.3'' [StartCalled, ConnectSucceeded, VersionRejected, ConnectSucceeded]
      (new_network [(''a.example'', 50001), (''b.example'', 50002)]))"
  by (simp add: eval_defs Let_def)

end
